theory Spec2Isabelle
  imports Complex_Main "HOL-Library.Word" "HOL-Library.Sublist"
begin

section \<open>JavaScript values the component handles\<close>

text \<open>
  A JavaScript string is a sequence of UTF-16 code units. \<open>lit\<close> reads an ASCII literal of
  the source as such a string.
\<close>

type_synonym code_unit = "16 word"

type_synonym jsstring = "code_unit list"

definition lit :: "string \<Rightarrow> jsstring" where
  "lit cs = map of_char cs"

text \<open>
  A number that \<open>JSON.parse\<close> can return: a finite value (0 and -0 are not told apart:
  both are falsy and nothing else here looks at a number) or an infinity, which a literal
  beyond the double range gives. \<open>JSON.parse\<close> never returns NaN.
\<close>

datatype jsnum = Finite rat | PosInfinity | NegInfinity

text \<open>
  The values a parsed JSON text denotes. An object is the list of its members in the
  order of the text; of two members with one key the later one counts.
\<close>

datatype json =
    JNull
  | JBool bool
  | JNum jsnum
  | JStr jsstring
  | JArr "json list"
  | JObj "(jsstring \<times> json) list"

text \<open>The values the state variables hold: \<open>undefined\<close>, or one of the above.\<close>

datatype jsval = Undefined | Val json

text \<open>\<open>ToBoolean\<close>: what \<open>!x\<close> and \<open>x && ...\<close> test.\<close>

fun ToBoolean :: "jsval \<Rightarrow> bool" where
  "ToBoolean Undefined = False"
| "ToBoolean (Val JNull) = False"
| "ToBoolean (Val (JBool b)) = b"
| "ToBoolean (Val (JNum n)) = (n \<noteq> Finite 0)"
| "ToBoolean (Val (JStr s)) = (s \<noteq> [])"
| "ToBoolean (Val (JArr xs)) = True"
| "ToBoolean (Val (JObj ps)) = True"

subsection \<open>\<open>String.prototype.trim\<close>\<close>

text \<open>
  \<open>trim\<close> strips the code units of ECMAScript's WhiteSpace and LineTerminator productions
  from both ends: TAB, LF, VT, FF, CR, SPACE, NBSP, U+1680, U+2000 to U+200A, U+2028,
  U+2029, U+202F, U+205F, U+3000 and U+FEFF. Each is a single code unit.
\<close>

definition is_white_space :: "code_unit \<Rightarrow> bool" where
  "is_white_space c =
     (c \<in> {0x9, 0xA, 0xB, 0xC, 0xD, 0x20, 0xA0, 0x1680, 0x2028, 0x2029, 0x202F, 0x205F,
            0x3000, 0xFEFF}
      \<or> 0x2000 \<le> c \<and> c \<le> 0x200A)"

definition trim :: "jsstring \<Rightarrow> jsstring" where
  "trim s = rev (dropWhile is_white_space (rev (dropWhile is_white_space s)))"

subsection \<open>Requests, responses and what can throw\<close>

text \<open>
  What can be thrown: \<open>fetch\<close> rejects (no connection), \<open>res.json()\<close> rejects (the body
  is not JSON), or a property is read from \<open>null\<close>. Whether a \<open>catch\<close> block sees it
  depends on where the throwing expression is evaluated.
\<close>

datatype js_error = FetchRejected | JsonRejected | PropertyOfNull

text \<open>
  The outcome of \<open>await fetch(...)\<close>: a rejection, or a response with its HTTP status and
  its body, which \<open>res.json()\<close> either parses or rejects. \<open>fetch\<close> resolves whatever the
  status is.
\<close>

datatype response_body = NotJson | Parsed json

datatype fetch_result = Rejected | Resolved nat response_body

text \<open>\<open>const res = await fetch(...); const data = await res.json();\<close>\<close>

fun await_json :: "fetch_result \<Rightarrow> js_error + json" where
  "await_json Rejected = Inl FetchRejected"
| "await_json (Resolved status NotJson) = Inl JsonRejected"
| "await_json (Resolved status (Parsed data)) = Inr data"

text \<open>
  \<open>data.k\<close> for a property name \<open>k\<close> that no built-in prototype defines, as \<open>reply\<close> and
  \<open>session_id\<close> are: a TypeError on \<open>null\<close>, the member's value on an object that has it,
  \<open>undefined\<close> everywhere else.
\<close>

fun Get :: "json \<Rightarrow> jsstring \<Rightarrow> js_error + jsval" where
  "Get JNull k = Inl PropertyOfNull"
| "Get (JObj ps) k = Inr (case map_of (rev ps) k of None \<Rightarrow> Undefined | Some v \<Rightarrow> Val v)"
| "Get (JBool b) k = Inr Undefined"
| "Get (JNum n) k = Inr Undefined"
| "Get (JStr s) k = Inr Undefined"
| "Get (JArr xs) k = Inr Undefined"

text \<open>
  A request as \<open>fetch\<close> receives it. The body is kept as the object literal handed to
  \<open>JSON.stringify\<close>.
\<close>

datatype body_init = NoBody | JSON_stringify "(jsstring \<times> jsval) list"

record request =
  req_url :: string
  req_method :: string
  req_headers :: "(string \<times> string) list"
  req_body :: body_init

text \<open>What a handler does to the world outside the state variables.\<close>

datatype effect = Fetch request | ConsoleError string js_error | ScrollIntoView

definition BASE_URL :: string where
  "BASE_URL = ''http://localhost:8000''"

section \<open>The component's state\<close>

text \<open>A message \<open>{ sender, text }\<close>; the field \<open>text\<close> is \<open>msg_text\<close> here.\<close>

record message =
  sender :: string
  msg_text :: jsval

text \<open>
  The five \<open>useState\<close> variables of \<open>ChatBot\<close>, and \<open>render_error\<close>, which is not a
  state variable: it records that a state updater threw when React ran it. React runs
  an updater function when it renders, outside the handler that queued it, so no
  \<open>catch\<close> of the handler sees the error; the render throws and, \<open>App\<close> having no error
  boundary, React unmounts the component.
\<close>

record widget =
  sessionId :: jsval
  messages :: "message list"
  input :: jsstring
  loading :: bool
  isOpen :: bool
  render_error :: "js_error option"

definition greeting :: message where
  "greeting =
     \<lparr>sender = ''bot'',
      msg_text = Val (JStr (lit ''Hello! I'm OmegaAI. How can I help you today?''))\<rparr>"

text \<open>The initial values given to \<open>useState\<close>.\<close>

definition init :: widget where
  "init = \<lparr>sessionId = Val JNull, messages = [greeting], input = [], loading = False,
           isOpen = False, render_error = None\<rparr>"

definition setSessionId :: "jsval \<Rightarrow> widget \<Rightarrow> widget" where
  "setSessionId v w = w\<lparr>sessionId := v\<rparr>"

text \<open>
  \<open>setMessages\<close> is only ever given an updater function. An updater that returns gives
  the new transcript; one that throws leaves the transcript as it is and the render
  fails with its error.
\<close>

definition setMessages ::
  "(message list \<Rightarrow> js_error + message list) \<Rightarrow> widget \<Rightarrow> widget" where
  "setMessages f w =
     (case f (messages w) of
        Inr ms \<Rightarrow> w\<lparr>messages := ms\<rparr>
      | Inl err \<Rightarrow> w\<lparr>render_error := Some err\<rparr>)"

definition setInput :: "jsstring \<Rightarrow> widget \<Rightarrow> widget" where
  "setInput v w = w\<lparr>input := v\<rparr>"

definition setLoading :: "bool \<Rightarrow> widget \<Rightarrow> widget" where
  "setLoading b w = w\<lparr>loading := b\<rparr>"

definition setIsOpen :: "bool \<Rightarrow> widget \<Rightarrow> widget" where
  "setIsOpen b w = w\<lparr>isOpen := b\<rparr>"

section \<open>Session start\<close>

text \<open>
  \<open>startSession\<close> suspends at its \<open>await\<close>s, so it is two pieces: the request it issues
  when called, and what it does once the outcome \<open>r\<close> of the request is there.
\<close>

definition session_request :: request where
  "session_request =
     \<lparr>req_url = BASE_URL @ ''/session/start'', req_method = ''POST'', req_headers = [],
      req_body = NoBody\<rparr>"

text \<open>The \<open>try\<close> block up to the value handed to \<open>setSessionId\<close>.\<close>

definition try_session :: "fetch_result \<Rightarrow> js_error + jsval" where
  "try_session r =
     (case await_json r of
        Inl err \<Rightarrow> Inl err
      | Inr data \<Rightarrow> Get data (lit ''session_id''))"

definition startSession_resume :: "fetch_result \<Rightarrow> widget \<Rightarrow> widget \<times> effect list" where
  "startSession_resume r w =
     (case try_session r of
        Inr v \<Rightarrow> (setSessionId v w, [])
      | Inl err \<Rightarrow> (w, [ConsoleError ''Failed to start session'' err]))"

text \<open>The effect with the empty dependency list: \<open>if (!sessionId) startSession();\<close>\<close>

definition session_effect :: "widget \<Rightarrow> effect list" where
  "session_effect w = (if \<not> ToBoolean (sessionId w) then [Fetch session_request] else [])"

section \<open>Sending a message\<close>

definition fallback_text :: jsstring where
  "fallback_text = [0x26A0, 0xFE0F] @ lit '' I couldn't connect to the server.''"

definition smart_request :: "jsval \<Rightarrow> jsval \<Rightarrow> request" where
  "smart_request msg sid =
     \<lparr>req_url = BASE_URL @ ''/smart'', req_method = ''POST'',
      req_headers = [(''Content-Type'', ''application/json'')],
      req_body = JSON_stringify [(lit ''message'', msg), (lit ''session_id'', sid)]\<rparr>"

text \<open>
  \<open>sendMessage\<close> up to its first \<open>await\<close>: the guard, the three state updates and the
  request, if one is issued.
\<close>

definition sendMessage_call :: "widget \<Rightarrow> widget \<times> request option" where
  "sendMessage_call w =
     (if \<not> ToBoolean (Val (JStr (trim (input w)))) \<or> loading w \<or> \<not> ToBoolean (sessionId w)
      then (w, None)
      else
        let userMsg = \<lparr>sender = ''user'', msg_text = Val (JStr (trim (input w)))\<rparr>;
            w1 = setMessages (\<lambda>prev. Inr (prev @ [userMsg])) w;
            w2 = setLoading True w1;
            w3 = setInput [] w2
        in (w3, Some (smart_request (msg_text userMsg) (sessionId w))))"

text \<open>
  \<open>sendMessage\<close> from the outcome \<open>r\<close> of its request on. Inside the \<open>try\<close> block only
  \<open>fetch\<close> and \<open>res.json()\<close> can throw: \<open>data.reply\<close> stands in the body of the updater
  \<open>prev => [...prev, { sender: "bot", text: data.reply }]\<close>, so it is read when React
  runs the updater, not when \<open>setMessages\<close> is called. The updaters are functional
  updates, so they apply to the state as it is when the outcome arrives.
  \<open>setLoading(false)\<close> follows the \<open>try\<close> statement on every path.
\<close>

definition sendMessage_resume :: "fetch_result \<Rightarrow> widget \<Rightarrow> widget" where
  "sendMessage_resume r w =
     (let w1 =
        (case await_json r of
           Inr data \<Rightarrow>
             setMessages
               (\<lambda>prev. case Get data (lit ''reply'') of
                         Inl err \<Rightarrow> Inl err
                       | Inr reply \<Rightarrow> Inr (prev @ [\<lparr>sender = ''bot'', msg_text = reply\<rparr>])) w
         | Inl err \<Rightarrow>
             setMessages
               (\<lambda>prev. Inr (prev @ [\<lparr>sender = ''bot'', msg_text = Val (JStr fallback_text)\<rparr>]))
               w)
      in setLoading False w1)"

text \<open>
  A whole call of \<open>sendMessage\<close> whose request has the outcome \<open>r\<close>, nothing else
  happening in between: the final state and the requests issued.
\<close>

definition sendMessage :: "fetch_result \<Rightarrow> widget \<Rightarrow> widget \<times> effect list" where
  "sendMessage r w =
     (case sendMessage_call w of
        (w1, None) \<Rightarrow> (w1, [])
      | (w1, Some req) \<Rightarrow> (sendMessage_resume r w1, [Fetch req]))"

section \<open>Visibility\<close>

text \<open>
  The closed view renders two controls with \<open>onClick={() => setIsOpen(true)}\<close>, the open
  view one with \<open>onClick={() => setIsOpen(false)}\<close>: a click on the control on view.
\<close>

definition toggle :: "widget \<Rightarrow> widget" where
  "toggle w = (if \<not> isOpen w then setIsOpen True w else setIsOpen False w)"

section \<open>The component as a transition system\<close>

text \<open>
  The state variables together with the calls suspended at an \<open>await\<close>. An event is a
  handler being run or a pending request being settled. The view offers only some of the
  handlers in each state, and none once a render has thrown and the component is
  unmounted, so the runs of the real component are among the runs here. What the view
  draws from the state is not part of the model.
\<close>

record system =
  ui :: widget
  awaiting_session :: bool
  awaiting_smart :: nat

datatype event =
    Toggle
  | Change jsstring
  | Submit
  | SessionSettles fetch_result
  | SmartSettles fetch_result

text \<open>
  The auto-scroll effect, with dependencies \<open>[messages, isOpen]\<close>: it runs after a render
  in which either changed, and \<open>chatEndRef.current\<close> is set only in the open view.
\<close>

definition autoScroll :: "widget \<Rightarrow> widget \<Rightarrow> effect list" where
  "autoScroll w w' =
     (if (messages w' \<noteq> messages w \<or> isOpen w' \<noteq> isOpen w) \<and> isOpen w'
      then [ScrollIntoView] else [])"

fun handle :: "system \<Rightarrow> event \<Rightarrow> system \<times> effect list" where
  "handle s Toggle = (s\<lparr>ui := toggle (ui s)\<rparr>, [])"
| "handle s (Change v) = (s\<lparr>ui := setInput v (ui s)\<rparr>, [])"
| "handle s Submit =
     (case sendMessage_call (ui s) of
        (w, None) \<Rightarrow> (s\<lparr>ui := w\<rparr>, [])
      | (w, Some req) \<Rightarrow> (s\<lparr>ui := w, awaiting_smart := Suc (awaiting_smart s)\<rparr>, [Fetch req]))"
| "handle s (SessionSettles r) =
     (if awaiting_session s
      then case startSession_resume r (ui s) of
             (w, effs) \<Rightarrow> (s\<lparr>ui := w, awaiting_session := False\<rparr>, effs)
      else (s, []))"
| "handle s (SmartSettles r) =
     (case awaiting_smart s of
        0 \<Rightarrow> (s, [])
      | Suc n \<Rightarrow> (s\<lparr>ui := sendMessage_resume r (ui s), awaiting_smart := n\<rparr>, []))"

definition step :: "system \<Rightarrow> event \<Rightarrow> system \<times> effect list" where
  "step s e =
     (case handle s e of (s', effs) \<Rightarrow> (s', effs @ autoScroll (ui s) (ui s')))"

fun run :: "system \<Rightarrow> event list \<Rightarrow> system \<times> effect list" where
  "run s [] = (s, [])"
| "run s (e # es) =
     (case step s e of (s1, effs1) \<Rightarrow>
        case run s1 es of (s2, effs2) \<Rightarrow> (s2, effs1 @ effs2))"

text \<open>
  Mounting: the first render with the initial state, then the two effects. The closed
  view has no \<open>chatEndRef\<close> element, so the scroll effect does nothing.
\<close>

definition mount :: "system \<times> effect list" where
  "mount =
     (\<lparr>ui = init, awaiting_session = \<not> ToBoolean (sessionId init), awaiting_smart = 0\<rparr>,
      session_effect init)"

text \<open>
  Whether a parsed value is an object with a member of the given key: what
  "has a \<open>reply\<close> field" means for a response body.
\<close>

fun has_member :: "json \<Rightarrow> jsstring \<Rightarrow> bool" where
  "has_member (JObj ps) k = (k \<in> fst ` set ps)"
| "has_member JNull k = False"
| "has_member (JBool b) k = False"
| "has_member (JNum n) k = False"
| "has_member (JStr s) k = False"
| "has_member (JArr xs) k = False"

section \<open>Facts about \<open>trim\<close> and property reads\<close>

lemma dropWhile_all_iff: "(\<forall>x \<in> set (dropWhile P xs). P x) \<longleftrightarrow> dropWhile P xs = []"
proof
  assume a: "\<forall>x \<in> set (dropWhile P xs). P x"
  show "dropWhile P xs = []"
  proof (rule ccontr)
    assume n: "dropWhile P xs \<noteq> []"
    then have "\<not> P (hd (dropWhile P xs))" by (rule hd_dropWhile)
    moreover from n have "hd (dropWhile P xs) \<in> set (dropWhile P xs)" by simp
    ultimately show False using a by blast
  qed
qed (auto dest: set_dropWhileD)

lemma trim_Nil_iff: "trim s = [] \<longleftrightarrow> (\<forall>c \<in> set s. is_white_space c)"
  by (simp add: trim_def dropWhile_eq_Nil_conv dropWhile_all_iff)

lemma trim_decomp:
  "s = takeWhile is_white_space s @ trim s @ rev (takeWhile is_white_space (rev (dropWhile is_white_space s)))"
proof -
  let ?d = "dropWhile is_white_space s"
  have "rev ?d = takeWhile is_white_space (rev ?d) @ dropWhile is_white_space (rev ?d)"
    by simp
  then have "?d = rev (dropWhile is_white_space (rev ?d)) @ rev (takeWhile is_white_space (rev ?d))"
    by (metis rev_append rev_rev_ident)
  then have "?d = trim s @ rev (takeWhile is_white_space (rev ?d))"
    by (simp add: trim_def)
  moreover have "s = takeWhile is_white_space s @ ?d" by simp
  ultimately show ?thesis by metis
qed

lemma trim_ends:
  assumes "trim s \<noteq> []"
  shows "\<not> is_white_space (hd (trim s))" and "\<not> is_white_space (last (trim s))"
proof -
  let ?d = "dropWhile is_white_space s"
  let ?e = "dropWhile is_white_space (rev ?d)"
  from assms have e: "?e \<noteq> []" by (simp add: trim_def)
  then have "\<not> is_white_space (hd ?e)" by (rule hd_dropWhile)
  with e show "\<not> is_white_space (last (trim s))" by (simp add: trim_def last_rev)
  from e have d: "?d \<noteq> []" by (cases "?d = []") simp_all
  then have nd: "\<not> is_white_space (hd ?d)" by (rule hd_dropWhile)
  have "?d = trim s @ rev (takeWhile is_white_space (rev ?d))"
    by (metis trim_def rev_append rev_rev_ident takeWhile_dropWhile_id)
  with assms have "hd ?d = hd (trim s)" by (metis hd_append2)
  with nd show "\<not> is_white_space (hd (trim s))" by simp
qed

lemma map_of_rev_None: "map_of (rev ps) k = None \<longleftrightarrow> k \<notin> fst ` set ps"
  by (simp add: map_of_eq_None_iff)

text \<open>
  \<open>trim\<close> is determined by what it strips: white space around a core that neither
  starts nor ends with white space.
\<close>

lemma trim_unique:
  assumes "\<forall>c \<in> set pre. is_white_space c" "\<forall>c \<in> set post. is_white_space c"
    and "t \<noteq> []" "\<not> is_white_space (hd t)" "\<not> is_white_space (last t)"
  shows "trim (pre @ t @ post) = t"
proof -
  from assms(3,4) have dt: "dropWhile is_white_space (t @ post) = t @ post"
    by (cases t) simp_all
  from assms(1) have "dropWhile is_white_space (pre @ t @ post) = dropWhile is_white_space (t @ post)"
    by (intro dropWhile_append2) simp
  with dt have d1: "dropWhile is_white_space (pre @ t @ post) = t @ post" by simp
  from assms(3,5) have drt: "dropWhile is_white_space (rev t) = rev t"
    by (cases "rev t") (simp_all add: last_rev [symmetric] hd_rev)
  from assms(2) have "dropWhile is_white_space (rev post @ rev t) = dropWhile is_white_space (rev t)"
    by (intro dropWhile_append2) simp
  with drt have "dropWhile is_white_space (rev (t @ post)) = rev t" by simp
  with d1 show ?thesis by (simp add: trim_def)
qed

lemma trim_hello: "trim (lit ''hello'') = lit ''hello''"
  by (simp add: trim_def lit_def is_white_space_def)

lemma trim_hi: "trim ([0x20, 0x20] @ lit ''hi'' @ [0x9]) = lit ''hi''"
  by (simp add: trim_def lit_def is_white_space_def)

lemma map_of_rev_Some: "map_of (rev ps) k = Some v \<Longrightarrow> k \<in> fst ` set ps"
  using map_of_rev_None [of ps k] by auto

lemma Get_Undefined_iff: "Get d k = Inr Undefined \<longleftrightarrow> d \<noteq> JNull \<and> \<not> has_member d k"
  by (cases d) (auto simp: map_of_rev_None dest: map_of_rev_Some split: option.splits)

lemma Get_Inl_iff: "Get d k = Inl err \<longleftrightarrow> d = JNull \<and> err = PropertyOfNull"
  by (cases d) auto

section \<open>Facts about the two phases of \<open>sendMessage\<close> and \<open>startSession\<close>\<close>

lemma sendMessage_call_accept:
  assumes "trim (input w) \<noteq> []" "\<not> loading w" "ToBoolean (sessionId w)"
  shows "sendMessage_call w =
    (w\<lparr>messages := messages w @ [\<lparr>sender = ''user'', msg_text = Val (JStr (trim (input w)))\<rparr>],
       loading := True, input := []\<rparr>,
     Some (smart_request (Val (JStr (trim (input w)))) (sessionId w)))"
  using assms
  by (simp add: sendMessage_call_def setMessages_def setLoading_def setInput_def Let_def)

lemma sendMessage_call_reject:
  assumes "trim (input w) = [] \<or> loading w \<or> \<not> ToBoolean (sessionId w)"
  shows "sendMessage_call w = (w, None)"
  using assms by (auto simp: sendMessage_call_def)

lemma sendMessage_resume_ok:
  "Get d (lit ''reply'') = Inr v \<Longrightarrow> sendMessage_resume (Resolved status (Parsed d)) w =
     w\<lparr>messages := messages w @ [\<lparr>sender = ''bot'', msg_text = v\<rparr>], loading := False\<rparr>"
  by (simp add: sendMessage_resume_def setMessages_def setLoading_def)

lemma sendMessage_resume_null:
  "sendMessage_resume (Resolved status (Parsed JNull)) w =
     w\<lparr>loading := False, render_error := Some PropertyOfNull\<rparr>"
  by (simp add: sendMessage_resume_def setMessages_def setLoading_def)

lemma sendMessage_resume_fail:
  "await_json r = Inl err \<Longrightarrow> sendMessage_resume r w =
     w\<lparr>messages := messages w @ [\<lparr>sender = ''bot'', msg_text = Val (JStr fallback_text)\<rparr>],
       loading := False\<rparr>"
  by (simp add: sendMessage_resume_def setMessages_def setLoading_def)

lemma sendMessage_accept:
  assumes "trim (input w) \<noteq> []" "\<not> loading w" "ToBoolean (sessionId w)"
  shows "sendMessage r w =
    (sendMessage_resume r
       (w\<lparr>messages := messages w @ [\<lparr>sender = ''user'', msg_text = Val (JStr (trim (input w)))\<rparr>],
          loading := True, input := []\<rparr>),
     [Fetch (smart_request (Val (JStr (trim (input w)))) (sessionId w))])"
  using assms by (simp add: sendMessage_def sendMessage_call_accept)

lemma run_Submit_SmartSettles:
  assumes "trim (input (ui s)) \<noteq> []" "\<not> loading (ui s)" "ToBoolean (sessionId (ui s))"
  shows "ui (fst (run s [Submit, SmartSettles r])) = fst (sendMessage r (ui s))"
  using assms
  by (simp add: step_def sendMessage_accept sendMessage_call_accept split: prod.splits)

lemma await_json_Inl_iff:
  "(\<exists>err. await_json r = Inl err) \<longleftrightarrow> r = Rejected \<or> (\<exists>st. r = Resolved st NotJson)"
proof (cases r)
  case Rejected
  then show ?thesis by simp
next
  case (Resolved st b)
  then show ?thesis by (cases b) simp_all
qed

lemma mount_eq:
  "mount = (\<lparr>ui = init, awaiting_session = True, awaiting_smart = 0\<rparr>, [Fetch session_request])"
  by (simp add: mount_def session_effect_def init_def)

lemma startSession_resume_fail:
  "try_session r = Inl err \<Longrightarrow>
     startSession_resume r w = (w, [ConsoleError ''Failed to start session'' err])"
  by (simp add: startSession_resume_def)

lemma startSession_resume_ok:
  "try_session r = Inr v \<Longrightarrow> startSession_resume r w = (w\<lparr>sessionId := v\<rparr>, [])"
  by (simp add: startSession_resume_def setSessionId_def)

section \<open>Facts about the transition system\<close>

lemma sendMessage_call_cases:
  "sendMessage_call w = (w, None) \<or>
   sendMessage_call w =
    (w\<lparr>messages := messages w @ [\<lparr>sender = ''user'', msg_text = Val (JStr (trim (input w)))\<rparr>],
       loading := True, input := []\<rparr>,
     Some (smart_request (Val (JStr (trim (input w)))) (sessionId w)))"
  by (simp add: sendMessage_call_def setMessages_def setLoading_def setInput_def Let_def)

lemma sendMessage_call_prefix: "prefix (messages w) (messages (fst (sendMessage_call w)))"
  using sendMessage_call_cases [of w] by auto

lemma sendMessage_resume_prefix: "prefix (messages w) (messages (sendMessage_resume r w))"
proof (cases "await_json r")
  case (Inl err)
  then show ?thesis by (simp add: sendMessage_resume_fail)
next
  case (Inr d)
  then obtain status where r: "r = Resolved status (Parsed d)"
    by (cases r rule: await_json.cases) simp_all
  show ?thesis
  proof (cases "Get d (lit ''reply'')")
    case (Inl err)
    then have "d = JNull" by (simp add: Get_Inl_iff)
    with r show ?thesis by (simp add: sendMessage_resume_null)
  next
    case (Inr v)
    with r show ?thesis by (simp add: sendMessage_resume_ok)
  qed
qed

lemma sendMessage_prefix: "prefix (messages w) (messages (fst (sendMessage r w)))"
proof -
  have "prefix (messages (fst (sendMessage_call w)))
          (messages (sendMessage_resume r (fst (sendMessage_call w))))"
    by (rule sendMessage_resume_prefix)
  with sendMessage_call_prefix [of w] show ?thesis
    by (cases "sendMessage_call w") (auto simp: sendMessage_def split: option.splits)
qed

lemma startSession_resume_messages: "messages (fst (startSession_resume r w)) = messages w"
  by (simp add: startSession_resume_def setSessionId_def split: sum.splits)

lemma toggle_messages: "messages (toggle w) = messages w"
  by (simp add: toggle_def setIsOpen_def)

lemma handle_prefix: "prefix (messages (ui s)) (messages (ui (fst (handle s e))))"
proof (cases e)
  case Toggle
  then show ?thesis by (simp add: toggle_messages)
next
  case (Change v)
  then show ?thesis by (simp add: setInput_def)
next
  case Submit
  with sendMessage_call_prefix [of "ui s"] show ?thesis
    by (cases "sendMessage_call (ui s)") (auto split: option.splits)
next
  case (SessionSettles r)
  with startSession_resume_messages [of r "ui s"] show ?thesis
    by (cases "startSession_resume r (ui s)") auto
next
  case (SmartSettles r)
  then show ?thesis
    by (cases "awaiting_smart s") (simp_all add: sendMessage_resume_prefix)
qed

lemma fst_step: "fst (step s e) = fst (handle s e)"
  by (simp add: step_def split: prod.splits)

lemma step_prefix: "prefix (messages (ui s)) (messages (ui (fst (step s e))))"
  by (simp add: fst_step handle_prefix)

lemma fst_run_Cons: "fst (run s (e # es)) = fst (run (fst (step s e)) es)"
  by (simp split: prod.splits)

lemma snd_run_Cons: "snd (run s (e # es)) = snd (step s e) @ snd (run (fst (step s e)) es)"
  by (simp split: prod.splits)

lemma run_prefix: "prefix (messages (ui s)) (messages (ui (fst (run s es))))"
proof (induction es arbitrary: s)
  case Nil
  show ?case by simp
next
  case (Cons e es)
  have "prefix (messages (ui s)) (messages (ui (fst (step s e))))" by (rule step_prefix)
  also have "prefix \<dots> (messages (ui (fst (run (fst (step s e)) es))))" by (rule Cons.IH)
  finally show ?case by (simp only: fst_run_Cons)
qed

lemma session_request_not_smart: "session_request \<noteq> smart_request m sid"
  by (simp add: session_request_def smart_request_def)

lemma handle_Fetch:
  assumes "Fetch req \<in> set (snd (handle s e))"
  shows "e = Submit \<and> req = smart_request (Val (JStr (trim (input (ui s))))) (sessionId (ui s))
         \<and> trim (input (ui s)) \<noteq> [] \<and> \<not> loading (ui s) \<and> ToBoolean (sessionId (ui s))"
proof (cases e)
  case Submit
  show ?thesis
  proof (cases "trim (input (ui s)) = [] \<or> loading (ui s) \<or> \<not> ToBoolean (sessionId (ui s))")
    case True
    with assms Submit show ?thesis by (simp add: sendMessage_call_reject)
  next
    case False
    with assms Submit show ?thesis by (simp add: sendMessage_call_accept)
  qed
next
  case (SessionSettles r)
  with assms show ?thesis
    by (auto simp: startSession_resume_def split: sum.splits if_splits)
next
  case (SmartSettles r)
  with assms show ?thesis by (cases "awaiting_smart s") simp_all
qed (use assms in simp_all)

lemma snd_step: "snd (step s e) = snd (handle s e) @ autoScroll (ui s) (ui (fst (handle s e)))"
  by (simp add: step_def split: prod.splits)

lemma step_Fetch:
  assumes "Fetch req \<in> set (snd (step s e))"
  shows "e = Submit \<and> req = smart_request (Val (JStr (trim (input (ui s))))) (sessionId (ui s))
         \<and> trim (input (ui s)) \<noteq> [] \<and> \<not> loading (ui s) \<and> ToBoolean (sessionId (ui s))"
proof -
  from assms have "Fetch req \<in> set (snd (handle s e))"
    by (auto simp: snd_step autoScroll_def split: if_splits)
  then show ?thesis by (rule handle_Fetch)
qed

lemma run_Fetch: "Fetch req \<in> set (snd (run s es)) \<Longrightarrow> \<exists>m sid. req = smart_request m sid"
proof (induction es arbitrary: s)
  case Nil
  then show ?case by simp
next
  case (Cons e es)
  from Cons.prems have "Fetch req \<in> set (snd (step s e)) \<or>
      Fetch req \<in> set (snd (run (fst (step s e)) es))"
    by (simp only: snd_run_Cons set_append Un_iff)
  then show ?case using Cons.IH step_Fetch by blast
qed

text \<open>
  Without a session id and with no send pending, no event but the settling of the session
  request changes the session id or the transcript, and none issues a request.
\<close>

lemma step_no_session:
  assumes "\<not> ToBoolean (sessionId (ui s))" "awaiting_smart s = 0"
    and "awaiting_session s \<Longrightarrow> \<forall>r. e \<noteq> SessionSettles r"
  shows "sessionId (ui (fst (step s e))) = sessionId (ui s)
       \<and> messages (ui (fst (step s e))) = messages (ui s)
       \<and> awaiting_smart (fst (step s e)) = 0
       \<and> awaiting_session (fst (step s e)) = awaiting_session s
       \<and> (\<forall>req. Fetch req \<notin> set (snd (step s e)))"
proof -
  have "\<forall>req. Fetch req \<notin> set (snd (step s e))"
    using assms(1) step_Fetch by blast
  moreover have "sessionId (ui (fst (handle s e))) = sessionId (ui s)
       \<and> messages (ui (fst (handle s e))) = messages (ui s)
       \<and> awaiting_smart (fst (handle s e)) = 0
       \<and> awaiting_session (fst (handle s e)) = awaiting_session s"
    using assms
    by (cases e) (auto simp: toggle_def setIsOpen_def setInput_def sendMessage_call_reject)
  ultimately show ?thesis by (simp add: fst_step)
qed

lemma run_no_session:
  assumes "\<not> ToBoolean (sessionId (ui s))" "awaiting_smart s = 0"
    and "awaiting_session s \<Longrightarrow> \<forall>r. SessionSettles r \<notin> set es"
  shows "sessionId (ui (fst (run s es))) = sessionId (ui s)
       \<and> messages (ui (fst (run s es))) = messages (ui s)
       \<and> awaiting_smart (fst (run s es)) = 0
       \<and> awaiting_session (fst (run s es)) = awaiting_session s
       \<and> (\<forall>req. Fetch req \<notin> set (snd (run s es)))"
  using assms
proof (induction es arbitrary: s)
  case Nil
  then show ?case by simp
next
  case (Cons e es)
  let ?s1 = "fst (step s e)"
  have st: "sessionId (ui ?s1) = sessionId (ui s)
       \<and> messages (ui ?s1) = messages (ui s)
       \<and> awaiting_smart ?s1 = 0
       \<and> awaiting_session ?s1 = awaiting_session s
       \<and> (\<forall>req. Fetch req \<notin> set (snd (step s e)))"
    using Cons.prems by (intro step_no_session) auto
  then have "sessionId (ui (fst (run ?s1 es))) = sessionId (ui ?s1)
       \<and> messages (ui (fst (run ?s1 es))) = messages (ui ?s1)
       \<and> awaiting_smart (fst (run ?s1 es)) = 0
       \<and> awaiting_session (fst (run ?s1 es)) = awaiting_session ?s1
       \<and> (\<forall>req. Fetch req \<notin> set (snd (run ?s1 es)))"
    using Cons.prems by (intro Cons.IH) auto
  with st show ?case by (simp only: fst_run_Cons snd_run_Cons set_append Un_iff) simp
qed

lemma fst_run_append: "fst (run s (es @ es')) = fst (run (fst (run s es)) es')"
proof (induction es arbitrary: s)
  case Nil
  show ?case by simp
next
  case (Cons e es)
  show ?case by (simp only: append_Cons fst_run_Cons Cons.IH)
qed

lemma snd_run_append: "snd (run s (es @ es')) = snd (run s es) @ snd (run (fst (run s es)) es')"
proof (induction es arbitrary: s)
  case Nil
  show ?case by simp
next
  case (Cons e es)
  show ?case by (simp only: append_Cons fst_run_Cons snd_run_Cons Cons.IH append_assoc)
qed

lemma step_SessionSettles_fail:
  assumes "try_session r = Inl err" "awaiting_session s"
  shows "step s (SessionSettles r) =
     (s\<lparr>awaiting_session := False\<rparr>, [ConsoleError ''Failed to start session'' err])"
  using assms by (simp add: step_def startSession_resume_fail autoScroll_def)

lemma session_failure_is_final:
  assumes fail: "try_session r = Inl err" and first: "\<forall>r'. SessionSettles r' \<notin> set es1"
  shows "sessionId (ui (fst (run (fst mount) (es1 @ SessionSettles r # es2)))) = Val JNull
       \<and> messages (ui (fst (run (fst mount) (es1 @ SessionSettles r # es2)))) = [greeting]
       \<and> (\<forall>req. Fetch req \<notin> set (snd (run (fst mount) (es1 @ SessionSettles r # es2))))
       \<and> ConsoleError ''Failed to start session'' err
            \<in> set (snd (run (fst mount) (es1 @ SessionSettles r # es2)))"
proof -
  let ?s0 = "fst mount"
  let ?s1 = "fst (run ?s0 es1)"
  let ?s2 = "fst (step ?s1 (SessionSettles r))"
  let ?s3 = "fst (run ?s2 es2)"
  have s0: "sessionId (ui ?s0) = Val JNull" "messages (ui ?s0) = [greeting]"
    "awaiting_smart ?s0 = 0" "awaiting_session ?s0"
    by (simp_all add: mount_eq init_def)
  have p1: "sessionId (ui ?s1) = sessionId (ui ?s0)
       \<and> messages (ui ?s1) = messages (ui ?s0)
       \<and> awaiting_smart ?s1 = 0
       \<and> awaiting_session ?s1 = awaiting_session ?s0
       \<and> (\<forall>req. Fetch req \<notin> set (snd (run ?s0 es1)))"
    using s0 first by (intro run_no_session) simp_all
  with s0 have aw: "awaiting_session ?s1" by simp
  have st: "step ?s1 (SessionSettles r) =
     (?s1\<lparr>awaiting_session := False\<rparr>, [ConsoleError ''Failed to start session'' err])"
    using fail aw by (rule step_SessionSettles_fail)
  then have s2: "sessionId (ui ?s2) = Val JNull" "messages (ui ?s2) = [greeting]"
    "awaiting_smart ?s2 = 0" "\<not> awaiting_session ?s2"
    using p1 s0 by simp_all
  have p3: "sessionId (ui ?s3) = sessionId (ui ?s2)
       \<and> messages (ui ?s3) = messages (ui ?s2)
       \<and> awaiting_smart ?s3 = 0
       \<and> awaiting_session ?s3 = awaiting_session ?s2
       \<and> (\<forall>req. Fetch req \<notin> set (snd (run ?s2 es2)))"
    using s2 by (intro run_no_session) simp_all
  have f: "fst (run ?s0 (es1 @ SessionSettles r # es2)) = ?s3"
    by (simp only: fst_run_append fst_run_Cons)
  have e: "snd (run ?s0 (es1 @ SessionSettles r # es2)) =
      snd (run ?s0 es1) @ snd (step ?s1 (SessionSettles r)) @ snd (run ?s2 es2)"
    by (simp only: snd_run_append snd_run_Cons)
  show ?thesis
    using p1 p3 s2 st by (simp only: f e) auto
qed

section \<open>A successful exchange\<close>

text \<open>
  C1. With a session id present, no request pending and the draft \<open>hello\<close>, a call of
  \<open>sendMessage\<close> whose request is answered with the body \<open>{reply: "hi"}\<close> (under any
  status) leaves the transcript extended by the user message \<open>hello\<close> and the bot
  message \<open>hi\<close>, in that order, and \<open>loading\<close> false. The two events Submit and
  SmartSettles of the transition system give the same state.
\<close>

theorem sendMessage_hello_hi:
  assumes "ToBoolean (sessionId w)" and "\<not> loading w" and "input w = lit ''hello''"
  shows "messages (fst (sendMessage
            (Resolved status (Parsed (JObj [(lit ''reply'', JStr (lit ''hi''))]))) w)) =
          messages w @ [\<lparr>sender = ''user'', msg_text = Val (JStr (lit ''hello''))\<rparr>,
                        \<lparr>sender = ''bot'', msg_text = Val (JStr (lit ''hi''))\<rparr>]
       \<and> \<not> loading (fst (sendMessage
            (Resolved status (Parsed (JObj [(lit ''reply'', JStr (lit ''hi''))]))) w))
       \<and> (ui s = w \<longrightarrow>
            ui (fst (run s [Submit,
              SmartSettles (Resolved status (Parsed (JObj [(lit ''reply'', JStr (lit ''hi''))])))])) =
            fst (sendMessage
              (Resolved status (Parsed (JObj [(lit ''reply'', JStr (lit ''hi''))]))) w))"
proof -
  let ?r = "Resolved status (Parsed (JObj [(lit ''reply'', JStr (lit ''hi''))]))"
  have t: "trim (input w) = lit ''hello''" using assms(3) by (simp add: trim_hello)
  then have ne: "trim (input w) \<noteq> []" by (simp add: lit_def)
  have ok: "Get (JObj [(lit ''reply'', JStr (lit ''hi''))]) (lit ''reply'') =
      Inr (Val (JStr (lit ''hi'')))"
    by simp
  have "sendMessage ?r w =
    (sendMessage_resume ?r
       (w\<lparr>messages := messages w @ [\<lparr>sender = ''user'', msg_text = Val (JStr (trim (input w)))\<rparr>],
          loading := True, input := []\<rparr>),
     [Fetch (smart_request (Val (JStr (trim (input w)))) (sessionId w))])"
    using ne assms(2) assms(1) by (rule sendMessage_accept)
  then have "messages (fst (sendMessage ?r w)) =
          messages w @ [\<lparr>sender = ''user'', msg_text = Val (JStr (lit ''hello''))\<rparr>,
                        \<lparr>sender = ''bot'', msg_text = Val (JStr (lit ''hi''))\<rparr>]
       \<and> \<not> loading (fst (sendMessage ?r w))"
    by (simp add: sendMessage_resume_ok [OF ok] t)
  moreover have "ui s = w \<longrightarrow> ui (fst (run s [Submit, SmartSettles ?r])) = fst (sendMessage ?r w)"
    using run_Submit_SmartSettles [of s ?r] ne assms(1,2) by auto
  ultimately show ?thesis by blast
qed

theorem sendMessage_hello_hi_witness:
  "ToBoolean (sessionId (init\<lparr>sessionId := Val (JStr (lit ''abc'')), input := lit ''hello''\<rparr>))
   \<and> \<not> loading (init\<lparr>sessionId := Val (JStr (lit ''abc'')), input := lit ''hello''\<rparr>)
   \<and> messages (fst (sendMessage
        (Resolved 200 (Parsed (JObj [(lit ''reply'', JStr (lit ''hi''))])))
        (init\<lparr>sessionId := Val (JStr (lit ''abc'')), input := lit ''hello''\<rparr>))) =
      [greeting, \<lparr>sender = ''user'', msg_text = Val (JStr (lit ''hello''))\<rparr>,
       \<lparr>sender = ''bot'', msg_text = Val (JStr (lit ''hi''))\<rparr>]
   \<and> \<not> loading (fst (sendMessage
        (Resolved 200 (Parsed (JObj [(lit ''reply'', JStr (lit ''hi''))])))
        (init\<lparr>sessionId := Val (JStr (lit ''abc'')), input := lit ''hello''\<rparr>)))"
  using sendMessage_hello_hi
    [of "init\<lparr>sessionId := Val (JStr (lit ''abc'')), input := lit ''hello''\<rparr>" 200]
  by (simp add: init_def lit_def)

section \<open>A failed exchange\<close>

text \<open>
  C2. When the guard passes and the request fails (\<open>fetch\<close> rejects, or the body is not
  JSON), the call appends the user message and then exactly one bot message with the
  fallback text, has issued the one request and no other, and settling the request
  issues none; whatever the outcome of the request, \<open>loading\<close> is false afterwards.
\<close>

theorem sendMessage_failure_fallback:
  assumes "trim (input w) \<noteq> []" and "\<not> loading w" and "ToBoolean (sessionId w)"
    and "r = Rejected \<or> r = Resolved status NotJson"
  shows "sendMessage r w =
      (w\<lparr>messages := messages w @
            [\<lparr>sender = ''user'', msg_text = Val (JStr (trim (input w)))\<rparr>,
             \<lparr>sender = ''bot'', msg_text = Val (JStr fallback_text)\<rparr>],
          loading := False, input := []\<rparr>,
       [Fetch (smart_request (Val (JStr (trim (input w)))) (sessionId w))])
     \<and> (\<forall>s req. Fetch req \<notin> set (snd (step s (SmartSettles r))))
     \<and> (\<forall>r'. \<not> loading (fst (sendMessage r' w)))"
proof -
  from assms(4) obtain err where "await_json r = Inl err"
    by auto
  then have "sendMessage r w =
      (w\<lparr>messages := messages w @
            [\<lparr>sender = ''user'', msg_text = Val (JStr (trim (input w)))\<rparr>,
             \<lparr>sender = ''bot'', msg_text = Val (JStr fallback_text)\<rparr>],
          loading := False, input := []\<rparr>,
       [Fetch (smart_request (Val (JStr (trim (input w)))) (sessionId w))])"
    by (simp add: sendMessage_accept [OF assms(1-3)] sendMessage_resume_fail)
  moreover have "\<forall>s req. Fetch req \<notin> set (snd (step s (SmartSettles r)))"
    using step_Fetch by blast
  moreover have "\<forall>r'. \<not> loading (fst (sendMessage r' w))"
    by (simp add: sendMessage_accept [OF assms(1-3)] sendMessage_resume_def setLoading_def)
  ultimately show ?thesis by blast
qed

theorem sendMessage_failure_fallback_witness:
  "trim (lit ''hello'') \<noteq> []
   \<and> sendMessage Rejected (init\<lparr>sessionId := Val (JStr (lit ''abc'')), input := lit ''hello''\<rparr>) =
      (init\<lparr>sessionId := Val (JStr (lit ''abc'')),
            messages := [greeting, \<lparr>sender = ''user'', msg_text = Val (JStr (lit ''hello''))\<rparr>,
                         \<lparr>sender = ''bot'', msg_text = Val (JStr fallback_text)\<rparr>]\<rparr>,
       [Fetch (smart_request (Val (JStr (lit ''hello''))) (Val (JStr (lit ''abc''))))])"
  using sendMessage_failure_fallback
    [of "init\<lparr>sessionId := Val (JStr (lit ''abc'')), input := lit ''hello''\<rparr>" Rejected 0]
  by (simp add: init_def trim_hello) (simp add: lit_def)

section \<open>The guard\<close>

text \<open>
  C3. When the draft consists of white space only (the empty draft included), or
  \<open>loading\<close> is true, or the session id is falsy (\<open>null\<close> as initially), a call of
  \<open>sendMessage\<close> returns the state it was given, all five variables, and has no effect:
  no request, nothing logged, no message added. As an event of the system, Submit then
  changes nothing either.
\<close>

theorem sendMessage_noop:
  assumes "(\<forall>c \<in> set (input w). is_white_space c) \<or> loading w \<or> \<not> ToBoolean (sessionId w)"
  shows "sendMessage r w = (w, []) \<and> (ui s = w \<longrightarrow> step s Submit = (s, []))"
proof -
  from assms have "trim (input w) = [] \<or> loading w \<or> \<not> ToBoolean (sessionId w)"
    by (simp add: trim_Nil_iff)
  then have rej: "sendMessage_call w = (w, None)" by (rule sendMessage_call_reject)
  then have "sendMessage r w = (w, [])" by (simp add: sendMessage_def)
  moreover from rej have "ui s = w \<longrightarrow> step s Submit = (s, [])"
    by (auto simp: step_def autoScroll_def)
  ultimately show ?thesis by blast
qed

theorem sendMessage_noop_witness:
  "sendMessage Rejected (init\<lparr>sessionId := Val (JStr (lit ''abc'')), input := [0x20, 0x9, 0x3000]\<rparr>)
     = (init\<lparr>sessionId := Val (JStr (lit ''abc'')), input := [0x20, 0x9, 0x3000]\<rparr>, [])
   \<and> sendMessage (Resolved 200 (Parsed (JObj [(lit ''reply'', JStr (lit ''hi''))])))
        (init\<lparr>sessionId := Val (JStr (lit ''abc'')), input := lit ''hello'', loading := True\<rparr>)
     = (init\<lparr>sessionId := Val (JStr (lit ''abc'')), input := lit ''hello'', loading := True\<rparr>, [])
   \<and> sendMessage (Resolved 200 (Parsed (JObj [(lit ''reply'', JStr (lit ''hi''))])))
        (init\<lparr>input := lit ''hello''\<rparr>)
     = (init\<lparr>input := lit ''hello''\<rparr>, [])
   \<and> step (fst mount) Submit = (fst mount, [])"
  using sendMessage_noop
      [of "init\<lparr>sessionId := Val (JStr (lit ''abc'')), input := [0x20, 0x9, 0x3000]\<rparr>" Rejected]
    sendMessage_noop
      [of "init\<lparr>sessionId := Val (JStr (lit ''abc'')), input := lit ''hello'', loading := True\<rparr>"]
    sendMessage_noop [of "init\<lparr>input := lit ''hello''\<rparr>"]
    sendMessage_noop [of init _ "fst mount"]
  by (simp add: init_def is_white_space_def mount_def)

section \<open>The optimistic part of a send\<close>

text \<open>
  C4. When the guard passes, \<open>sendMessage\<close> has, before it waits for any response,
  appended the user message, set \<open>loading\<close>, emptied the draft and issued one request:
  a POST to \<open>/smart\<close> with the JSON content type whose body is the serialisation of
  \<open>{message, session_id}\<close> with the current session id. The whole call issues that
  request and no other, and the Submit event issues it once and leaves one call pending.
\<close>

theorem sendMessage_call_effects:
  assumes "trim (input w) \<noteq> []" and "\<not> loading w" and "ToBoolean (sessionId w)"
  shows "\<exists>req.
      sendMessage_call w =
        (w\<lparr>messages := messages w @
              [\<lparr>sender = ''user'', msg_text = Val (JStr (trim (input w)))\<rparr>],
            loading := True, input := []\<rparr>, Some req)
    \<and> req_url req = ''http://localhost:8000/smart''
    \<and> req_method req = ''POST''
    \<and> req_headers req = [(''Content-Type'', ''application/json'')]
    \<and> req_body req =
        JSON_stringify [(lit ''message'', Val (JStr (trim (input w)))),
                        (lit ''session_id'', sessionId w)]
    \<and> snd (sendMessage r w) = [Fetch req]
    \<and> (ui s = w \<longrightarrow>
         snd (step s Submit) = Fetch req # (if isOpen w then [ScrollIntoView] else [])
         \<and> awaiting_smart (fst (step s Submit)) = Suc (awaiting_smart s))"
proof -
  let ?req = "smart_request (Val (JStr (trim (input w)))) (sessionId w)"
  have call: "sendMessage_call w =
        (w\<lparr>messages := messages w @
              [\<lparr>sender = ''user'', msg_text = Val (JStr (trim (input w)))\<rparr>],
            loading := True, input := []\<rparr>, Some ?req)"
    using assms by (rule sendMessage_call_accept)
  have "req_url ?req = ''http://localhost:8000/smart'' \<and> req_method ?req = ''POST''
      \<and> req_headers ?req = [(''Content-Type'', ''application/json'')]
      \<and> req_body ?req = JSON_stringify [(lit ''message'', Val (JStr (trim (input w)))),
                        (lit ''session_id'', sessionId w)]"
    by (simp add: smart_request_def BASE_URL_def)
  moreover have "snd (sendMessage r w) = [Fetch ?req]"
    by (simp add: sendMessage_accept [OF assms])
  moreover have "ui s = w \<longrightarrow>
         snd (step s Submit) = Fetch ?req # (if isOpen w then [ScrollIntoView] else [])
         \<and> awaiting_smart (fst (step s Submit)) = Suc (awaiting_smart s)"
    using call by (auto simp: step_def autoScroll_def)
  ultimately show ?thesis using call by blast
qed

theorem sendMessage_call_effects_witness:
  "sendMessage_call (init\<lparr>sessionId := Val (JStr (lit ''abc'')), input := lit ''hello''\<rparr>) =
     (init\<lparr>sessionId := Val (JStr (lit ''abc'')),
           messages := [greeting, \<lparr>sender = ''user'', msg_text = Val (JStr (lit ''hello''))\<rparr>],
           loading := True\<rparr>,
      Some \<lparr>req_url = ''http://localhost:8000/smart'', req_method = ''POST'',
            req_headers = [(''Content-Type'', ''application/json'')],
            req_body = JSON_stringify [(lit ''message'', Val (JStr (lit ''hello''))),
                                       (lit ''session_id'', Val (JStr (lit ''abc'')))]\<rparr>)"
proof -
  let ?w = "init\<lparr>sessionId := Val (JStr (lit ''abc'')), input := lit ''hello''\<rparr>"
  have "trim (input ?w) \<noteq> []" by (simp add: trim_hello) (simp add: lit_def)
  moreover have "\<not> loading ?w" by (simp add: init_def)
  moreover have "ToBoolean (sessionId ?w)" by (simp add: lit_def)
  ultimately obtain req where
    "sendMessage_call ?w =
        (?w\<lparr>messages := messages ?w @
              [\<lparr>sender = ''user'', msg_text = Val (JStr (trim (input ?w)))\<rparr>],
            loading := True, input := []\<rparr>, Some req)
    \<and> req_url req = ''http://localhost:8000/smart''
    \<and> req_method req = ''POST''
    \<and> req_headers req = [(''Content-Type'', ''application/json'')]
    \<and> req_body req =
        JSON_stringify [(lit ''message'', Val (JStr (trim (input ?w)))),
                        (lit ''session_id'', sessionId ?w)]"
    using sendMessage_call_effects [of ?w] by blast
  then show ?thesis by (cases req) (simp add: init_def trim_hello)
qed

section \<open>The transcript only grows\<close>

text \<open>
  C5. Every event of the system, every run of events, a whole call of \<open>sendMessage\<close>
  with any outcome, the settling of the session request and the toggle leave a
  transcript of which the previous one is a prefix: messages are appended at the end,
  none is removed, moved or changed.
\<close>

theorem transcript_append_only:
  "prefix (messages (ui s)) (messages (ui (fst (step s e))))
   \<and> prefix (messages (ui s)) (messages (ui (fst (run s es))))
   \<and> prefix (messages w) (messages (fst (sendMessage r w)))
   \<and> prefix (messages w) (messages (fst (startSession_resume r w)))
   \<and> prefix (messages w) (messages (toggle w))
   \<and> prefix (messages (ui (fst mount))) (messages (ui (fst (run (fst mount) es))))"
  by (simp add: step_prefix run_prefix sendMessage_prefix startSession_resume_messages
      toggle_messages)

theorem transcript_append_only_witness:
  "prefix [greeting]
     (messages (ui (fst (run (fst mount)
        [Toggle, SessionSettles (Resolved 200 (Parsed (JObj [(lit ''session_id'', JStr (lit ''abc''))]))),
         Change (lit ''hello''), Submit, Toggle, SmartSettles Rejected]))))
   \<and> messages (ui (fst (run (fst mount)
        [Toggle, SessionSettles (Resolved 200 (Parsed (JObj [(lit ''session_id'', JStr (lit ''abc''))]))),
         Change (lit ''hello''), Submit, Toggle, SmartSettles Rejected]))) =
      [greeting, \<lparr>sender = ''user'', msg_text = Val (JStr (lit ''hello''))\<rparr>,
       \<lparr>sender = ''bot'', msg_text = Val (JStr fallback_text)\<rparr>]"
proof -
  let ?es = "[Toggle, SessionSettles (Resolved 200 (Parsed (JObj [(lit ''session_id'', JStr (lit ''abc''))]))),
         Change (lit ''hello''), Submit, Toggle, SmartSettles Rejected]"
  have "prefix (messages (ui (fst mount))) (messages (ui (fst (run (fst mount) ?es))))"
    using transcript_append_only [of "fst mount" Toggle ?es init Rejected] by blast
  moreover have "messages (ui (fst mount)) = [greeting]" by (simp add: mount_def init_def)
  moreover have "trim (lit ''hello'') \<noteq> []" by (simp add: trim_hello) (simp add: lit_def)
  then have "messages (ui (fst (run (fst mount) ?es))) =
      [greeting, \<lparr>sender = ''user'', msg_text = Val (JStr (lit ''hello''))\<rparr>,
       \<lparr>sender = ''bot'', msg_text = Val (JStr fallback_text)\<rparr>]"
    by (simp add: mount_def init_def step_def toggle_def setIsOpen_def setInput_def
        startSession_resume_def try_session_def setSessionId_def sendMessage_call_def
        setMessages_def setLoading_def Let_def sendMessage_resume_def trim_hello)
       (simp add: lit_def)
  ultimately show ?thesis by simp
qed

section \<open>Session acquisition\<close>

text \<open>
  C6. Mounting issues one POST to \<open>/session/start\<close> and no event issues another. When
  the response is an object with a \<open>session_id\<close>, more generally when the \<open>try\<close> block
  completes with a value, that value becomes the session id and nothing is logged; if
  it is truthy, as a non-empty string is, a non-blank draft is then sent. When the
  request fails, the state is unchanged and the one effect is the line on the console;
  from then on, whatever events follow, the session id stays \<open>null\<close>, the transcript
  stays the greeting, no request at all is issued, and \<open>sendMessage\<close> does nothing.
\<close>

theorem session_acquisition:
  "mount = (\<lparr>ui = init, awaiting_session = True, awaiting_smart = 0\<rparr>, [Fetch session_request])
   \<and> req_url session_request = ''http://localhost:8000/session/start''
   \<and> Fetch session_request \<notin> set (snd (run s es))
   \<and> try_session (Resolved status (Parsed (JObj [(lit ''session_id'', JStr sid)]))) =
       Inr (Val (JStr sid))
   \<and> (try_session r = Inr v \<longrightarrow>
        startSession_resume r w = (w\<lparr>sessionId := v\<rparr>, [])
        \<and> (ToBoolean v \<and> trim (input w) \<noteq> [] \<and> \<not> loading w \<longrightarrow>
             snd (sendMessage_call (fst (startSession_resume r w))) =
               Some (smart_request (Val (JStr (trim (input w)))) v)))
   \<and> try_session Rejected = Inl FetchRejected
   \<and> try_session (Resolved status NotJson) = Inl JsonRejected
   \<and> (try_session r = Inl err \<longrightarrow>
        startSession_resume r w = (w, [ConsoleError ''Failed to start session'' err])
        \<and> ((\<forall>r'. SessionSettles r' \<notin> set es1) \<longrightarrow>
             sessionId (ui (fst (run (fst mount) (es1 @ SessionSettles r # es2)))) = Val JNull
             \<and> messages (ui (fst (run (fst mount) (es1 @ SessionSettles r # es2)))) = [greeting]
             \<and> (\<forall>req. Fetch req \<notin> set (snd (run (fst mount) (es1 @ SessionSettles r # es2))))
             \<and> ConsoleError ''Failed to start session'' err
                 \<in> set (snd (run (fst mount) (es1 @ SessionSettles r # es2)))
             \<and> sendMessage r' (ui (fst (run (fst mount) (es1 @ SessionSettles r # es2)))) =
                 (ui (fst (run (fst mount) (es1 @ SessionSettles r # es2))), [])))"
proof -
  have a: "req_url session_request = ''http://localhost:8000/session/start''"
    by (simp add: session_request_def BASE_URL_def)
  have b: "Fetch session_request \<notin> set (snd (run s es))"
    using run_Fetch session_request_not_smart by blast
  have c: "try_session (Resolved status (Parsed (JObj [(lit ''session_id'', JStr sid)]))) =
       Inr (Val (JStr sid))"
    "try_session Rejected = Inl FetchRejected"
    "try_session (Resolved status NotJson) = Inl JsonRejected"
    by (simp_all add: try_session_def)
  have d: "try_session r = Inr v \<longrightarrow>
        startSession_resume r w = (w\<lparr>sessionId := v\<rparr>, [])
        \<and> (ToBoolean v \<and> trim (input w) \<noteq> [] \<and> \<not> loading w \<longrightarrow>
             snd (sendMessage_call (fst (startSession_resume r w))) =
               Some (smart_request (Val (JStr (trim (input w)))) v))"
    by (simp add: startSession_resume_ok sendMessage_call_accept)
  have e: "try_session r = Inl err \<longrightarrow>
        startSession_resume r w = (w, [ConsoleError ''Failed to start session'' err])
        \<and> ((\<forall>r'. SessionSettles r' \<notin> set es1) \<longrightarrow>
             sessionId (ui (fst (run (fst mount) (es1 @ SessionSettles r # es2)))) = Val JNull
             \<and> messages (ui (fst (run (fst mount) (es1 @ SessionSettles r # es2)))) = [greeting]
             \<and> (\<forall>req. Fetch req \<notin> set (snd (run (fst mount) (es1 @ SessionSettles r # es2))))
             \<and> ConsoleError ''Failed to start session'' err
                 \<in> set (snd (run (fst mount) (es1 @ SessionSettles r # es2)))
             \<and> sendMessage r' (ui (fst (run (fst mount) (es1 @ SessionSettles r # es2)))) =
                 (ui (fst (run (fst mount) (es1 @ SessionSettles r # es2))), []))"
  proof (intro impI conjI)
    assume fail: "try_session r = Inl err"
    then show "startSession_resume r w = (w, [ConsoleError ''Failed to start session'' err])"
      by (rule startSession_resume_fail)
    assume first: "\<forall>r'. SessionSettles r' \<notin> set es1"
    note fin = session_failure_is_final [OF fail first, of es2]
    from fin show "sessionId (ui (fst (run (fst mount) (es1 @ SessionSettles r # es2)))) = Val JNull"
      by blast
    then have "sendMessage_call (ui (fst (run (fst mount) (es1 @ SessionSettles r # es2)))) =
        (ui (fst (run (fst mount) (es1 @ SessionSettles r # es2))), None)"
      by (intro sendMessage_call_reject) simp
    then show "sendMessage r' (ui (fst (run (fst mount) (es1 @ SessionSettles r # es2)))) =
                 (ui (fst (run (fst mount) (es1 @ SessionSettles r # es2))), [])"
      by (simp add: sendMessage_def)
    from fin show "messages (ui (fst (run (fst mount) (es1 @ SessionSettles r # es2)))) = [greeting]"
      by blast
    from fin show "\<forall>req. Fetch req \<notin> set (snd (run (fst mount) (es1 @ SessionSettles r # es2)))"
      by blast
    from fin show "ConsoleError ''Failed to start session'' err
                 \<in> set (snd (run (fst mount) (es1 @ SessionSettles r # es2)))"
      by blast
  qed
  from mount_eq a b c d e show ?thesis by blast
qed

theorem session_acquisition_witness:
  "startSession_resume
      (Resolved 200 (Parsed (JObj [(lit ''session_id'', JStr (lit ''abc''))])))
      (init\<lparr>input := lit ''hello''\<rparr>) =
     (init\<lparr>sessionId := Val (JStr (lit ''abc'')), input := lit ''hello''\<rparr>, [])
   \<and> snd (sendMessage_call (fst (startSession_resume
      (Resolved 200 (Parsed (JObj [(lit ''session_id'', JStr (lit ''abc''))])))
      (init\<lparr>input := lit ''hello''\<rparr>)))) =
     Some (smart_request (Val (JStr (lit ''hello''))) (Val (JStr (lit ''abc''))))
   \<and> startSession_resume Rejected init =
     (init, [ConsoleError ''Failed to start session'' FetchRejected])
   \<and> sessionId (ui (fst (run (fst mount)
        ([Toggle, Change (lit ''hello''), Submit] @ SessionSettles Rejected # [Submit, Toggle]))))
      = Val JNull
   \<and> messages (ui (fst (run (fst mount)
        ([Toggle, Change (lit ''hello''), Submit] @ SessionSettles Rejected # [Submit, Toggle]))))
      = [greeting]
   \<and> (\<forall>req. Fetch req \<notin> set (snd (run (fst mount)
        ([Toggle, Change (lit ''hello''), Submit] @ SessionSettles Rejected # [Submit, Toggle]))))"
proof -
  let ?ok = "Resolved 200 (Parsed (JObj [(lit ''session_id'', JStr (lit ''abc''))]))"
  let ?w = "init\<lparr>input := lit ''hello''\<rparr>"
  have ok: "try_session ?ok = Inr (Val (JStr (lit ''abc'')))" by (simp add: try_session_def)
  have en: "ToBoolean (Val (JStr (lit ''abc''))) \<and> trim (input ?w) \<noteq> [] \<and> \<not> loading ?w"
    by (simp add: trim_hello init_def) (simp add: lit_def)
  have fail: "try_session Rejected = Inl FetchRejected" by (simp add: try_session_def)
  have first: "\<forall>r'. SessionSettles r' \<notin> set [Toggle, Change (lit ''hello''), Submit]" by simp
  from ok en
    session_acquisition [where r = ?ok and v = "Val (JStr (lit ''abc''))" and w = ?w]
  have a: "startSession_resume ?ok ?w = (?w\<lparr>sessionId := Val (JStr (lit ''abc''))\<rparr>, [])"
    and b: "snd (sendMessage_call (fst (startSession_resume ?ok ?w))) =
           Some (smart_request (Val (JStr (trim (input ?w)))) (Val (JStr (lit ''abc''))))"
    by blast+
  from a have "startSession_resume ?ok ?w =
       (init\<lparr>sessionId := Val (JStr (lit ''abc'')), input := lit ''hello''\<rparr>, [])"
    by (simp add: init_def)
  moreover from b have "snd (sendMessage_call (fst (startSession_resume ?ok ?w))) =
           Some (smart_request (Val (JStr (lit ''hello''))) (Val (JStr (lit ''abc''))))"
    by (simp add: trim_hello)
  moreover from fail first
    session_acquisition [where r = Rejected and err = FetchRejected and w = init
      and ?es1.0 = "[Toggle, Change (lit ''hello''), Submit]" and ?es2.0 = "[Submit, Toggle]"]
  have "startSession_resume Rejected init =
     (init, [ConsoleError ''Failed to start session'' FetchRejected])
   \<and> sessionId (ui (fst (run (fst mount)
        ([Toggle, Change (lit ''hello''), Submit] @ SessionSettles Rejected # [Submit, Toggle]))))
      = Val JNull
   \<and> messages (ui (fst (run (fst mount)
        ([Toggle, Change (lit ''hello''), Submit] @ SessionSettles Rejected # [Submit, Toggle]))))
      = [greeting]
   \<and> (\<forall>req. Fetch req \<notin> set (snd (run (fst mount)
        ([Toggle, Change (lit ''hello''), Submit] @ SessionSettles Rejected # [Submit, Toggle]))))"
    by blast
  ultimately show ?thesis by blast
qed

section \<open>Visibility toggle\<close>

text \<open>
  C7. In every state the toggle changes the visibility flag and nothing else: the other
  four state variables keep their values, the event issues no request, and two toggles
  in a row give the state back, transcript included.
\<close>

theorem toggle_only_visibility:
  "isOpen (toggle w) = (\<not> isOpen w)
   \<and> toggle w = w\<lparr>isOpen := \<not> isOpen w\<rparr>
   \<and> sessionId (toggle w) = sessionId w
   \<and> messages (toggle w) = messages w
   \<and> input (toggle w) = input w
   \<and> loading (toggle w) = loading w
   \<and> toggle (toggle w) = w
   \<and> fst (step s Toggle) = s\<lparr>ui := toggle (ui s)\<rparr>
   \<and> (\<forall>req. Fetch req \<notin> set (snd (step s Toggle)))
   \<and> fst (run s [Toggle, Toggle]) = s"
  by (auto simp: toggle_def setIsOpen_def step_def autoScroll_def split: if_splits)

theorem toggle_only_visibility_witness:
  "isOpen (toggle init) \<and> toggle (toggle init) = init
   \<and> messages (toggle init) = [greeting]
   \<and> snd (step (fst mount) Toggle) = [ScrollIntoView]
   \<and> fst (run (fst mount) [Toggle, Toggle]) = fst mount"
  using toggle_only_visibility [of init "fst mount"]
  by (simp add: toggle_def setIsOpen_def step_def autoScroll_def init_def mount_def)

section \<open>What is sent is the trimmed draft\<close>

text \<open>
  C8. When the guard passes, the draft is white space, then its trimmed form, then
  white space; the trimmed form neither starts nor ends with white space; and it is the
  trimmed form that is the text of the appended user message and the \<open>message\<close> field
  of the request body.
\<close>

theorem sendMessage_sends_trimmed_draft:
  assumes "trim (input w) \<noteq> []" and "\<not> loading w" and "ToBoolean (sessionId w)"
  shows "\<exists>pre post req.
      input w = pre @ trim (input w) @ post
    \<and> (\<forall>c \<in> set pre. is_white_space c) \<and> (\<forall>c \<in> set post. is_white_space c)
    \<and> \<not> is_white_space (hd (trim (input w)))
    \<and> \<not> is_white_space (last (trim (input w)))
    \<and> messages (fst (sendMessage_call w)) =
        messages w @ [\<lparr>sender = ''user'', msg_text = Val (JStr (trim (input w)))\<rparr>]
    \<and> snd (sendMessage_call w) = Some req
    \<and> req_body req =
        JSON_stringify [(lit ''message'', Val (JStr (trim (input w)))),
                        (lit ''session_id'', sessionId w)]"
proof -
  let ?pre = "takeWhile is_white_space (input w)"
  let ?post = "rev (takeWhile is_white_space (rev (dropWhile is_white_space (input w))))"
  let ?req = "smart_request (Val (JStr (trim (input w)))) (sessionId w)"
  have "input w = ?pre @ trim (input w) @ ?post" by (rule trim_decomp)
  moreover have "\<forall>c \<in> set ?pre. is_white_space c" by (auto dest: set_takeWhileD)
  moreover have "\<forall>c \<in> set ?post. is_white_space c" by (auto dest: set_takeWhileD)
  moreover note trim_ends [OF assms(1)]
  moreover have "messages (fst (sendMessage_call w)) =
        messages w @ [\<lparr>sender = ''user'', msg_text = Val (JStr (trim (input w)))\<rparr>]"
    and "snd (sendMessage_call w) = Some ?req"
    by (simp_all add: sendMessage_call_accept [OF assms])
  moreover have "req_body ?req =
        JSON_stringify [(lit ''message'', Val (JStr (trim (input w)))),
                        (lit ''session_id'', sessionId w)]"
    by (simp add: smart_request_def)
  ultimately show ?thesis by blast
qed

theorem sendMessage_sends_trimmed_draft_witness:
  "trim ([0x20, 0x20] @ lit ''hi'' @ [0x9]) = lit ''hi''
   \<and> lit ''hi'' \<noteq> [0x20, 0x20] @ lit ''hi'' @ [0x9]
   \<and> messages (fst (sendMessage_call
        (init\<lparr>sessionId := Val (JStr (lit ''abc'')), input := [0x20, 0x20] @ lit ''hi'' @ [0x9]\<rparr>))) =
      [greeting, \<lparr>sender = ''user'', msg_text = Val (JStr (lit ''hi''))\<rparr>]
   \<and> map_option req_body (snd (sendMessage_call
        (init\<lparr>sessionId := Val (JStr (lit ''abc'')), input := [0x20, 0x20] @ lit ''hi'' @ [0x9]\<rparr>))) =
      Some (JSON_stringify [(lit ''message'', Val (JStr (lit ''hi''))),
                            (lit ''session_id'', Val (JStr (lit ''abc'')))])"
proof -
  let ?w = "init\<lparr>sessionId := Val (JStr (lit ''abc'')), input := [0x20, 0x20] @ lit ''hi'' @ [0x9]\<rparr>"
  have t: "trim (input ?w) = lit ''hi''" using trim_hi by simp
  then have "trim (input ?w) \<noteq> []" by (simp add: lit_def)
  moreover have "\<not> loading ?w" by (simp add: init_def)
  moreover have "ToBoolean (sessionId ?w)" by (simp add: lit_def)
  ultimately obtain req where
    "messages (fst (sendMessage_call ?w)) =
        messages ?w @ [\<lparr>sender = ''user'', msg_text = Val (JStr (trim (input ?w)))\<rparr>]"
    "snd (sendMessage_call ?w) = Some req"
    "req_body req =
        JSON_stringify [(lit ''message'', Val (JStr (trim (input ?w)))),
                        (lit ''session_id'', sessionId ?w)]"
    using sendMessage_sends_trimmed_draft [of ?w] by blast
  moreover have "lit ''hi'' \<noteq> [0x20, 0x20] @ lit ''hi'' @ [0x9]" by (simp add: lit_def)
  ultimately show ?thesis using trim_hi t by (simp add: init_def)
qed

section \<open>The greeting\<close>

text \<open>
  C9. The initial transcript is the one bot message with the greeting text, and after
  any run of events from mounting the transcript still starts with it.
\<close>

theorem transcript_starts_with_greeting:
  "messages init = [greeting]
   \<and> sender greeting = ''bot''
   \<and> msg_text greeting = Val (JStr (lit ''Hello! I'm OmegaAI. How can I help you today?''))
   \<and> ui (fst mount) = init
   \<and> prefix [greeting] (messages (ui (fst (run (fst mount) es))))
   \<and> messages (ui (fst (run (fst mount) es))) \<noteq> []
   \<and> hd (messages (ui (fst (run (fst mount) es)))) = greeting"
proof -
  have m: "messages (ui (fst mount)) = [greeting]" by (simp add: mount_def init_def)
  have p: "prefix [greeting] (messages (ui (fst (run (fst mount) es))))"
    using run_prefix [of "fst mount" es] by (simp only: m)
  then obtain rest where "messages (ui (fst (run (fst mount) es))) = greeting # rest"
    by (auto simp: prefix_def)
  with p show ?thesis by (simp add: init_def greeting_def mount_def)
qed

theorem transcript_starts_with_greeting_witness:
  "hd (messages (ui (fst (run (fst mount)
      [SessionSettles (Resolved 200 (Parsed (JObj [(lit ''session_id'', JStr (lit ''abc''))]))),
       Change (lit ''hello''), Submit, SmartSettles Rejected])))) = greeting
   \<and> length (messages (ui (fst (run (fst mount)
      [SessionSettles (Resolved 200 (Parsed (JObj [(lit ''session_id'', JStr (lit ''abc''))]))),
       Change (lit ''hello''), Submit, SmartSettles Rejected])))) = 3"
proof -
  let ?es = "[SessionSettles (Resolved 200 (Parsed (JObj [(lit ''session_id'', JStr (lit ''abc''))]))),
       Change (lit ''hello''), Submit, SmartSettles Rejected]"
  have "hd (messages (ui (fst (run (fst mount) ?es)))) = greeting"
    using transcript_starts_with_greeting [of ?es] by blast
  moreover have "trim (lit ''hello'') \<noteq> []" by (simp add: trim_hello) (simp add: lit_def)
  then have "length (messages (ui (fst (run (fst mount) ?es)))) = 3"
    by (simp add: mount_def init_def step_def setInput_def
        startSession_resume_def try_session_def setSessionId_def sendMessage_call_def
        setMessages_def setLoading_def Let_def sendMessage_resume_def trim_hello)
       (simp add: lit_def)
  ultimately show ?thesis by simp
qed

section \<open>A body without a reply\<close>

text \<open>
  The body \<open>null\<close> parses as JSON and has no \<open>reply\<close> field. The \<open>catch\<close> block does not
  run, yet no bot message with the text \<open>undefined\<close> is appended either: the updater
  throws when it reads \<open>data.reply\<close>, the transcript ends with the user message, and
  the render fails.
\<close>

theorem null_body_appends_nothing:
  "await_json (Resolved 500 (Parsed JNull)) = Inr JNull
   \<and> \<not> has_member JNull (lit ''reply'')
   \<and> fst (sendMessage (Resolved 500 (Parsed JNull))
        (init\<lparr>sessionId := Val (JStr (lit ''abc'')), input := lit ''hello''\<rparr>)) =
      init\<lparr>sessionId := Val (JStr (lit ''abc'')),
           messages := [greeting, \<lparr>sender = ''user'', msg_text = Val (JStr (lit ''hello''))\<rparr>],
           render_error := Some PropertyOfNull\<rparr>
   \<and> messages (fst (sendMessage (Resolved 500 (Parsed JNull))
        (init\<lparr>sessionId := Val (JStr (lit ''abc'')), input := lit ''hello''\<rparr>))) \<noteq>
      [greeting, \<lparr>sender = ''user'', msg_text = Val (JStr (lit ''hello''))\<rparr>,
       \<lparr>sender = ''bot'', msg_text = Undefined\<rparr>]"
proof -
  let ?w = "init\<lparr>sessionId := Val (JStr (lit ''abc'')), input := lit ''hello''\<rparr>"
  have "trim (input ?w) \<noteq> []" by (simp add: trim_hello) (simp add: lit_def)
  moreover have "\<not> loading ?w" by (simp add: init_def)
  moreover have "ToBoolean (sessionId ?w)" by (simp add: lit_def)
  ultimately have "sendMessage (Resolved 500 (Parsed JNull)) ?w =
    (sendMessage_resume (Resolved 500 (Parsed JNull))
       (?w\<lparr>messages := messages ?w @ [\<lparr>sender = ''user'', msg_text = Val (JStr (trim (input ?w)))\<rparr>],
          loading := True, input := []\<rparr>),
     [Fetch (smart_request (Val (JStr (trim (input ?w)))) (sessionId ?w))])"
    by (rule sendMessage_accept)
  then show ?thesis
    by (simp add: sendMessage_resume_null init_def trim_hello)
qed

text \<open>
  C10, amended. When the body parses to a value other than \<open>null\<close> that has no \<open>reply\<close>
  field, under any status, the \<open>catch\<close> block does not run and the appended bot message
  has the text \<open>undefined\<close>; more generally the text is whatever \<open>data.reply\<close> reads.
  The fallback notice is appended when \<open>fetch\<close> rejects or the body is not JSON, which
  are the only outcomes that enter the \<open>catch\<close> block; after a body that parsed, the
  transcript ends with the notice only if the body's own \<open>reply\<close> is that text.
\<close>

theorem reply_missing_or_fallback:
  "(d \<noteq> JNull \<and> \<not> has_member d (lit ''reply'') \<longrightarrow>
      sendMessage_resume (Resolved status (Parsed d)) w =
        w\<lparr>messages := messages w @ [\<lparr>sender = ''bot'', msg_text = Undefined\<rparr>],
          loading := False\<rparr>)
   \<and> (Get d (lit ''reply'') = Inr v \<longrightarrow>
        sendMessage_resume (Resolved status (Parsed d)) w =
          w\<lparr>messages := messages w @ [\<lparr>sender = ''bot'', msg_text = v\<rparr>], loading := False\<rparr>)
   \<and> (r = Rejected \<or> r = Resolved status NotJson \<longrightarrow>
        sendMessage_resume r w =
          w\<lparr>messages := messages w @ [\<lparr>sender = ''bot'', msg_text = Val (JStr fallback_text)\<rparr>],
            loading := False\<rparr>)
   \<and> ((\<exists>err. await_json r = Inl err) \<longleftrightarrow> r = Rejected \<or> (\<exists>st. r = Resolved st NotJson))
   \<and> (messages (sendMessage_resume (Resolved status (Parsed d)) w) =
        messages w @ [\<lparr>sender = ''bot'', msg_text = Val (JStr fallback_text)\<rparr>] \<longrightarrow>
        Get d (lit ''reply'') = Inr (Val (JStr fallback_text)))"
proof -
  have a: "d \<noteq> JNull \<and> \<not> has_member d (lit ''reply'') \<longrightarrow>
      sendMessage_resume (Resolved status (Parsed d)) w =
        w\<lparr>messages := messages w @ [\<lparr>sender = ''bot'', msg_text = Undefined\<rparr>],
          loading := False\<rparr>"
    using Get_Undefined_iff [of d "lit ''reply''"] by (simp add: sendMessage_resume_ok)
  have b: "Get d (lit ''reply'') = Inr v \<longrightarrow>
        sendMessage_resume (Resolved status (Parsed d)) w =
          w\<lparr>messages := messages w @ [\<lparr>sender = ''bot'', msg_text = v\<rparr>], loading := False\<rparr>"
    by (simp add: sendMessage_resume_ok)
  have c: "r = Rejected \<or> r = Resolved status NotJson \<longrightarrow>
        sendMessage_resume r w =
          w\<lparr>messages := messages w @ [\<lparr>sender = ''bot'', msg_text = Val (JStr fallback_text)\<rparr>],
            loading := False\<rparr>"
    by (auto simp: sendMessage_resume_fail)
  have e: "messages (sendMessage_resume (Resolved status (Parsed d)) w) =
        messages w @ [\<lparr>sender = ''bot'', msg_text = Val (JStr fallback_text)\<rparr>] \<longrightarrow>
        Get d (lit ''reply'') = Inr (Val (JStr fallback_text))"
  proof (cases "Get d (lit ''reply'')")
    case (Inl err)
    then have "d = JNull" by (simp add: Get_Inl_iff)
    then show ?thesis by (simp add: sendMessage_resume_null)
  next
    case (Inr u)
    then show ?thesis by (simp add: sendMessage_resume_ok)
  qed
  from a b c e await_json_Inl_iff [of r] show ?thesis by blast
qed

theorem reply_missing_or_fallback_witness:
  "sendMessage_resume (Resolved 500 (Parsed (JObj [(lit ''detail'', JStr (lit ''oops''))])))
      (init\<lparr>loading := True\<rparr>) =
     init\<lparr>messages := [greeting, \<lparr>sender = ''bot'', msg_text = Undefined\<rparr>]\<rparr>
   \<and> sendMessage_resume Rejected (init\<lparr>loading := True\<rparr>) =
     init\<lparr>messages := [greeting, \<lparr>sender = ''bot'', msg_text = Val (JStr fallback_text)\<rparr>]\<rparr>
   \<and> sendMessage_resume (Resolved 200 (Parsed (JObj [(lit ''reply'', JStr (lit ''hi''))])))
      (init\<lparr>loading := True\<rparr>) =
     init\<lparr>messages := [greeting, \<lparr>sender = ''bot'', msg_text = Val (JStr (lit ''hi''))\<rparr>]\<rparr>
   \<and> Get (JObj [(lit ''reply'', JStr fallback_text)]) (lit ''reply'') =
     Inr (Val (JStr fallback_text))"
proof -
  have "lit ''reply'' \<noteq> lit ''detail''" by (simp add: lit_def)
  then have a: "JObj [(lit ''detail'', JStr (lit ''oops''))] \<noteq> JNull
      \<and> \<not> has_member (JObj [(lit ''detail'', JStr (lit ''oops''))]) (lit ''reply'')"
    by simp
  have c: "Get (JObj [(lit ''reply'', JStr (lit ''hi''))]) (lit ''reply'') =
      Inr (Val (JStr (lit ''hi'')))"
    by simp
  have e: "messages (sendMessage_resume
        (Resolved 200 (Parsed (JObj [(lit ''reply'', JStr fallback_text)]))) (init\<lparr>loading := True\<rparr>)) =
      messages (init\<lparr>loading := True\<rparr>) @
        [\<lparr>sender = ''bot'', msg_text = Val (JStr fallback_text)\<rparr>]"
    by (simp add: sendMessage_resume_ok)
  show ?thesis
    using a c e
      reply_missing_or_fallback [of "JObj [(lit ''detail'', JStr (lit ''oops''))]" 500
        "init\<lparr>loading := True\<rparr>" _ Rejected]
      reply_missing_or_fallback [of "JObj [(lit ''reply'', JStr (lit ''hi''))]" 200
        "init\<lparr>loading := True\<rparr>" "Val (JStr (lit ''hi''))" Rejected]
      reply_missing_or_fallback [of "JObj [(lit ''reply'', JStr fallback_text)]" 200
        "init\<lparr>loading := True\<rparr>" _ Rejected]
    by (simp add: init_def)
qed

end
